theory Spec2Isabelle
  imports Main "HOL-Library.List_Lexorder" "HOL-Library.Log_Nat" "HOL-Library.AList"
begin

section \<open>JavaScript strings\<close>

text \<open>
  A JavaScript string is a sequence of UTF-16 code units; \<open>line[i]\<close>, \<open>length\<close>,
  \<open>substring\<close> and the non-unicode regular expressions of \<open>csvService.ts\<close> all work on
  code units. A string is therefore a list of code units, each a natural number.
  \<open>js\<close> turns an ASCII literal into such a string.
\<close>

type_synonym jsstring = "nat list"

definition js :: "string \<Rightarrow> jsstring" where
  "js s = map of_char s"

text \<open>
  \<open>String.prototype.trim\<close> removes WhiteSpace and LineTerminator code points from both
  ends (ECMA-262): TAB, LF, VT, FF, CR, SP, NBSP, U+1680, U+2000 to U+200A, U+2028,
  U+2029, U+202F, U+205F, U+3000 and U+FEFF.
\<close>

definition isWhite :: "nat \<Rightarrow> bool" where
  "isWhite c =
     (c \<in> set [9, 10, 11, 12, 13, 32, 160, 5760, 8232, 8233, 8239, 8287, 12288, 65279]
      \<or> (8192 \<le> c \<and> c \<le> 8202))"

definition trimStart :: "jsstring \<Rightarrow> jsstring" where
  "trimStart s = dropWhile isWhite s"

definition trim :: "jsstring \<Rightarrow> jsstring" where
  "trim s = rev (dropWhile isWhite (rev (dropWhile isWhite s)))"

definition isDigit :: "nat \<Rightarrow> bool" where
  "isDigit c = (48 \<le> c \<and> c \<le> 57)"

text \<open>Decimal rendering of an integer, as \<open>String(n)\<close> and a template literal give it.\<close>

function showNat :: "nat \<Rightarrow> jsstring" where
  "showNat n = (if n < 10 then [48 + n] else showNat (n div 10) @ [48 + n mod 10])"
  by pat_completeness auto
termination
  by (relation "measure id") auto

declare showNat.simps [simp del]

definition showInt :: "int \<Rightarrow> jsstring" where
  "showInt i = (if i < 0 then 45 # showNat (nat (- i)) else showNat (nat i))"

text \<open>\<open>s.padStart(2, '0')\<close>\<close>

definition padStart2 :: "jsstring \<Rightarrow> jsstring" where
  "padStart2 s = replicate (2 - length s) 48 @ s"

section \<open>Line tokenizer: \<open>parseCSVLine\<close>\<close>

text \<open>
  The \<open>for\<close> loop of \<open>parseCSVLine\<close> with its three variables \<open>result\<close>, \<open>current\<close> and
  \<open>inQuotes\<close>; 34 is the double quote, 44 the comma. The equation for the empty rest is
  the \<open>result.push(current)\<close> after the loop.
\<close>

fun splitFields :: "jsstring list \<Rightarrow> jsstring \<Rightarrow> bool \<Rightarrow> jsstring \<Rightarrow> jsstring list" where
  "splitFields result current inQuotes [] = result @ [current]"
| "splitFields result current inQuotes (char # rest) =
     (if char = 34 then splitFields result current (\<not> inQuotes) rest
      else if char = 44 \<and> \<not> inQuotes then splitFields (result @ [current]) [] inQuotes rest
      else splitFields result (current @ [char]) inQuotes rest)"

text \<open>
  The clean-up applied to every field: trim, strip one pair of wrapping quotes
  (\<open>slice(1, -1)\<close>), then delete every remaining quote and carriage return (13).
\<close>

definition cleanField :: "jsstring \<Rightarrow> jsstring" where
  "cleanField val =
     (let v = trim val;
          v' = (if (case v of [] \<Rightarrow> False | c # _ \<Rightarrow> c = 34) \<and> v \<noteq> [] \<and> last v = 34
                then butlast (tl v) else v)
      in filter (\<lambda>c. c \<noteq> 34 \<and> c \<noteq> 13) v')"

definition parseCSVLine :: "jsstring \<Rightarrow> jsstring list" where
  "parseCSVLine line = map cleanField (splitFields [] [] False line)"

section \<open>Date normalization\<close>

text \<open>
  \<open>new Date(rawDate)\<close> is the host's calendar-date parser; its result depends on the
  engine and on the local time zone. It is a parameter of the model: \<open>newDate s\<close> is
  \<open>None\<close> when the date is invalid (\<open>isNaN(d.getTime())\<close>), and otherwise the pair of
  \<open>d.getFullYear()\<close> and \<open>d.getMonth() + 1\<close>.
\<close>

type_synonym calendar = "jsstring \<Rightarrow> (int \<times> nat) option"

definition calendarKey :: "calendar \<Rightarrow> jsstring \<Rightarrow> jsstring" where
  "calendarKey newDate rawDate =
     (case newDate rawDate of
        Some (y, m) \<Rightarrow> showInt y @ [45] @ padStart2 (showNat m)
      | None \<Rightarrow> [])"

text \<open>
  Step 2 of the row loop. The result is the variable \<open>dateKey\<close>; it stays the empty
  string when no branch produces a key. 45 is the hyphen, 47 the slash.
\<close>

definition dateKeyOf :: "calendar \<Rightarrow> jsstring \<Rightarrow> jsstring" where
  "dateKeyOf newDate rawDate =
     (let cleanDate = filter isDigit rawDate in
      if length cleanDate = 6 then
        take 4 cleanDate @ [45] @ take 2 (drop 4 cleanDate)
      else if length cleanDate = 8 then
        take 4 cleanDate @ [45] @ take 2 (drop 4 cleanDate)
      else if 45 \<in> set rawDate \<or> 47 \<in> set rawDate then calendarKey newDate rawDate
      else [])"

section \<open>JavaScript numbers\<close>

text \<open>
  A JavaScript number is an IEEE 754 binary64 value. The finite ones are carried as the
  rational number they denote, next to the two infinities and NaN. The two zeros are
  identified: the operations used by \<open>csvService.ts\<close> (addition, \<open>!x\<close>, \<open>isNaN\<close>)
  never tell them apart.
\<close>

datatype jsnum = Fin rat | PInf | NInf | NaN

text \<open>\<open>ilog2 a\<close> is the integer part of the binary logarithm of a positive rational.\<close>

definition ilog2 :: "rat \<Rightarrow> int" where
  "ilog2 a =
     (let (n, d) = quotient_of a;
          e = int (floorlog 2 (nat n)) - int (floorlog 2 (nat d))
      in if 2 powi e \<le> a then e else e - 1)"

definition roundTiesToEven :: "rat \<Rightarrow> int" where
  "roundTiesToEven r =
     (let f = \<lfloor>r\<rfloor>; d = r - of_int f
      in if d < 1 / 2 then f else if 1 / 2 < d then f + 1 else if even f then f else f + 1)"

text \<open>
  The binary64 value of a rational, rounding to nearest with ties to even: 53
  significant bits, the least exponent of the last place is \<open>-1074\<close> (subnormal
  numbers), and a rounded magnitude of \<open>2 ^ 1024\<close> or more is an infinity.
\<close>

definition toDouble :: "rat \<Rightarrow> jsnum" where
  "toDouble q =
     (if q = 0 then Fin 0
      else
        let a = \<bar>q\<bar>;
            u = max (ilog2 a - 52) (- 1074);
            r = of_int (roundTiesToEven (a / 2 powi u)) * 2 powi u
        in if 2 powi 1024 \<le> r then (if 0 < q then PInf else NInf)
           else Fin (if 0 < q then r else - r))"

text \<open>The \<open>+\<close> of two numbers.\<close>

fun jsadd :: "jsnum \<Rightarrow> jsnum \<Rightarrow> jsnum" where
  "jsadd (Fin x) (Fin y) = toDouble (x + y)"
| "jsadd NaN b = NaN"
| "jsadd a NaN = NaN"
| "jsadd PInf NInf = NaN"
| "jsadd NInf PInf = NaN"
| "jsadd PInf b = PInf"
| "jsadd a PInf = PInf"
| "jsadd NInf b = NInf"
| "jsadd a NInf = NInf"

definition isNaN :: "jsnum \<Rightarrow> bool" where
  "isNaN x = (x = NaN)"

text \<open>
  \<open>!m[k]\<close> for a property that holds a number or is absent: true for \<open>undefined\<close>
  (\<open>None\<close>), for zero and for NaN.
\<close>

definition falsy :: "jsnum option \<Rightarrow> bool" where
  "falsy v = (v = None \<or> v = Some (Fin 0) \<or> v = Some NaN)"

text \<open>
  \<open>parseFloat\<close> (ECMA-262): skip leading white space, take the longest prefix that is a
  \<open>StrDecimalLiteral\<close> (an optional sign, then \<open>Infinity\<close> or decimal digits with an
  optional fraction and an optional exponent), and return its value as a binary64
  number; NaN when there is no such prefix. For a literal of more than 20 significant
  digits ECMA-262 also lets an implementation round the digits after the 20th before
  the conversion; the model converts the exact value. 43 is \<open>+\<close>, 45 is \<open>-\<close>, 46 the dot,
  69 and 101 are \<open>E\<close> and \<open>e\<close>.
\<close>

definition digitsValue :: "jsstring \<Rightarrow> nat" where
  "digitsValue ds = foldl (\<lambda>acc c. 10 * acc + (c - 48)) 0 ds"

definition stripSign :: "jsstring \<Rightarrow> bool \<times> jsstring" where
  "stripSign s =
     (case s of
        [] \<Rightarrow> (False, [])
      | c # rest \<Rightarrow> if c = 45 then (True, rest) else if c = 43 then (False, rest) else (False, s))"

definition exponentPart :: "jsstring \<Rightarrow> int" where
  "exponentPart s =
     (case s of
        [] \<Rightarrow> 0
      | c # rest \<Rightarrow>
          if c = 101 \<or> c = 69 then
            (let (neg, t) = stripSign rest; ds = takeWhile isDigit t
             in if ds = [] then 0
                else if neg then - int (digitsValue ds) else int (digitsValue ds))
          else 0)"

definition parseFloat :: "jsstring \<Rightarrow> jsnum" where
  "parseFloat s =
     (let (neg, u) = stripSign (trimStart s) in
      if take 8 u = js ''Infinity'' then (if neg then NInf else PInf)
      else
        let intDigits = takeWhile isDigit u;
            afterInt = dropWhile isDigit u;
            hasDot = (case afterInt of [] \<Rightarrow> False | c # _ \<Rightarrow> c = 46);
            fracDigits = (if hasDot then takeWhile isDigit (tl afterInt) else []);
            afterFrac = (if hasDot then dropWhile isDigit (tl afterInt) else afterInt)
        in if intDigits = [] \<and> fracDigits = [] then NaN
           else
             let mv = of_nat (digitsValue (intDigits @ fracDigits))
                        * 10 powi (exponentPart afterFrac - int (length fracDigits))
             in toDouble (if neg then - mv else mv))"

section \<open>Objects used as maps\<close>

text \<open>
  \<open>totalMap\<close>, \<open>classMap\<close> and \<open>byClass\<close> are plain objects of the declared types
  \<open>Record<string, _>\<close>, created empty in each call. Such an object is an association
  list in insertion order, which is the order \<open>Object.entries\<close> enumerates keys that are
  not array indices (a date key always contains a hyphen). \<open>map_of m k\<close> reads \<open>m[k]\<close>,
  with \<open>None\<close> for \<open>undefined\<close>, and \<open>AList.update k v m\<close> is the assignment \<open>m[k] = v\<close>.
  This is the object of the declared type, in which a key is present only once it has
  been assigned: the members that a JavaScript object inherits from \<open>Object.prototype\<close>
  are not modelled, so a class name that names one of them (\<open>constructor\<close>,
  \<open>__proto__\<close> and the like) is treated as any other key. The order in which the keys of
  \<open>byClass\<close> are enumerated is not modelled either; no property below depends on it.
\<close>

type_synonym 'v obj = "(jsstring \<times> 'v) list"

section \<open>The data model of \<open>types.ts\<close>\<close>

record MonthlyData =
  date :: jsstring
  amount :: jsnum

record ParsedDataSet =
  totalByDate :: "MonthlyData list"
  byClass :: "(MonthlyData list) obj"
  availableClasses :: "jsstring list"

text \<open>\<open>reject(new Error(message))\<close>: the error carries its message.\<close>

datatype error = Error jsstring

definition msgEmptyFile :: jsstring where
  "msgEmptyFile = [3652, 3615, 3621, 3660] @ js '' CSV '' @ [3623, 3656, 3634, 3591, 3648, 3611, 3621, 3656, 3634]"

definition msgTooFewLines :: jsstring where
  "msgTooFewLines =
     [3652, 3615, 3621, 3660, 3617, 3637, 3586, 3657, 3629, 3617, 3641, 3621, 3652, 3617, 3656,
      3648, 3614, 3637, 3618, 3591, 3614, 3629] @ js '' ('' @ [3605, 3657, 3629, 3591, 3617, 3637]
     @ js '' Header '' @ [3649, 3621, 3632] @ js '' Data)''"

definition msgMissingColumns :: "jsstring \<Rightarrow> jsstring" where
  "msgMissingColumns headerLine =
     [3619, 3641, 3611, 3649, 3610, 3610, 3652, 3615, 3621, 3660] @ js '' CSV ''
     @ [3652, 3617, 3656, 3606, 3641, 3585, 3605, 3657, 3629, 3591] @ js '': ''
     @ [3586, 3634, 3604, 3588, 3629, 3621, 3633, 3617, 3609, 3660, 3592, 3635, 3648, 3611, 3655, 3609]
     @ [32, 39] @ js ''billPeriod'' @ [39, 32] @ [3627, 3619, 3639, 3629] @ [32, 39] @ js ''amount''
     @ [39, 32] @ js ''(Headers Found: '' @ headerLine @ js '')''"

definition msgNoData :: jsstring where
  "msgNoData =
     [3652, 3617, 3656, 3614, 3610, 3586, 3657, 3629, 3617, 3641, 3621, 3607, 3637, 3656, 3626,
      3634, 3617, 3634, 3619, 3606, 3611, 3619, 3632, 3617, 3623, 3621, 3612, 3621, 3652, 3604, 3657,
      32, 3605, 3619, 3623, 3592, 3626, 3629, 3610] @ js '' format '' @ [3586, 3629, 3591]
     @ js '' billPeriod (YYYYMM) '' @ [3649, 3621, 3632] @ js '' amount''"

definition msgProcessing :: jsstring where
  "msgProcessing =
     [3648, 3585, 3636, 3604, 3586, 3657, 3629, 3612, 3636, 3604, 3614, 3621, 3634, 3604, 3651,
      3609, 3585, 3634, 3619, 3611, 3619, 3632, 3617, 3623, 3621, 3612, 3621, 3652, 3615, 3621, 3660]
     @ js '' CSV''"

section \<open>Header resolution\<close>

text \<open>
  \<open>text.split(/\r?\n/)\<close>: a match is a line feed (10), together with the carriage
  return (13) directly before it when there is one. The second argument is the line
  being read.
\<close>

fun splitLines :: "jsstring \<Rightarrow> jsstring \<Rightarrow> jsstring list" where
  "splitLines cur [] = [cur]"
| "splitLines cur [c] = (if c = 10 then [cur, []] else [cur @ [c]])"
| "splitLines cur (c # d # rest) =
     (if c = 13 \<and> d = 10 then cur # splitLines [] rest
      else if c = 10 then cur # splitLines [] (d # rest)
      else splitLines (cur @ [c]) (d # rest))"

text \<open>
  \<open>h.toLowerCase().replace(/[^a-z0-9]/g, '')\<close>, code unit by code unit. A lower-case
  ASCII letter or a digit stays; an upper-case ASCII letter becomes its lower-case letter;
  U+0130 lower-cases to \<open>i\<close> followed by U+0307, of which \<open>i\<close> stays; the Kelvin sign
  U+212A lower-cases to \<open>k\<close>; the lower case of every other code unit has no ASCII
  letter or digit and is deleted.
\<close>

definition normalizeHeaderUnit :: "nat \<Rightarrow> jsstring" where
  "normalizeHeaderUnit c =
     (if (97 \<le> c \<and> c \<le> 122) \<or> (48 \<le> c \<and> c \<le> 57) then [c]
      else if 65 \<le> c \<and> c \<le> 90 then [c + 32]
      else if c = 304 then [105]
      else if c = 8490 then [107]
      else [])"

definition normalizeHeader :: "jsstring \<Rightarrow> jsstring" where
  "normalizeHeader h = concat (map normalizeHeaderUnit h)"

text \<open>\<open>Array.prototype.indexOf\<close>, with \<open>None\<close> for the result \<open>-1\<close>.\<close>

fun indexOf :: "'a list \<Rightarrow> 'a \<Rightarrow> nat option" where
  "indexOf [] x = None"
| "indexOf (y # ys) x = (if y = x then Some 0 else map_option Suc (indexOf ys x))"

definition headersOf :: "jsstring \<Rightarrow> jsstring list" where
  "headersOf headerLine = map normalizeHeader (parseCSVLine headerLine)"

definition dateIndexOf :: "jsstring list \<Rightarrow> nat option" where
  "dateIndexOf headers =
     (case indexOf headers (js ''billperiod'') of
        None \<Rightarrow> indexOf headers (js ''monthly'')
      | Some i \<Rightarrow> Some i)"

definition amountIndexOf :: "jsstring list \<Rightarrow> nat option" where
  "amountIndexOf headers = indexOf headers (js ''amount'')"

definition classIndexOf :: "jsstring list \<Rightarrow> nat option" where
  "classIndexOf headers =
     (case indexOf headers (js ''accountclass'') of
        None \<Rightarrow>
          (case indexOf headers (js ''actcode'') of
             None \<Rightarrow> indexOf headers (js ''account_class'')
           | Some i \<Rightarrow> Some i)
      | Some i \<Rightarrow> Some i)"

section \<open>Row normalization\<close>

text \<open>
  The body of the row loop up to the test \<open>!isNaN(amount)\<close> (the variable \<open>amount\<close> is \<open>amt\<close> here). The result is \<open>None\<close> when
  the row is skipped (a \<open>continue\<close>, or a NaN amount), and otherwise the date key, the
  amount and the class name under which the row is aggregated. \<open>rawClass\<close> is \<open>None\<close>
  when \<open>cols[classIndex]\<close> is \<open>undefined\<close>. 44 is the comma.
\<close>

definition normalizeRow ::
  "calendar \<Rightarrow> nat \<Rightarrow> nat \<Rightarrow> nat option \<Rightarrow> jsstring \<Rightarrow> (jsstring \<times> jsnum \<times> jsstring) option" where
  "normalizeRow newDate dateIndex amountIndex classIndex rawLine =
     (let line = trim rawLine in
      if line = [] then None
      else
        let cols = parseCSVLine line in
        if length cols \<le> max dateIndex amountIndex then None
        else
          let rawDate = cols ! dateIndex;
              rawAmount = cols ! amountIndex;
              rawClass = (case classIndex of
                            Some ci \<Rightarrow> if ci < length cols then Some (cols ! ci) else None
                          | None \<Rightarrow> Some (js ''Unclassified''))
          in if rawDate = [] \<or> rawAmount = [] then None
             else
               let dateKey = dateKeyOf newDate rawDate in
               if dateKey = [] then None
               else
                 let amt = parseFloat (filter (\<lambda>c. c \<noteq> 44) rawAmount);
                     className = (case rawClass of
                                    Some rc \<Rightarrow> if trim rc \<noteq> [] then trim rc else js ''Unknown''
                                  | None \<Rightarrow> js ''Unknown'')
                 in if isNaN amt then None else Some (dateKey, amt, className))"

section \<open>Aggregation\<close>

record aggState =
  totalMap :: "jsnum obj"
  classMap :: "(jsnum obj) obj"
  foundClasses :: "jsstring list"
  validRowCount :: nat

text \<open>
  \<open>if (!m[k]) m[k] = 0; m[k] += amt;\<close> on a map \<open>m\<close> from date keys to numbers.
  Reading an absent property in the second statement would give \<open>undefined\<close>, and
  \<open>undefined + amt\<close> is NaN.
\<close>

definition addTo :: "jsnum obj \<Rightarrow> jsstring \<Rightarrow> jsnum \<Rightarrow> jsnum obj" where
  "addTo m k amt =
     (let m1 = (if falsy (map_of m k) then AList.update k (Fin 0) m else m)
      in AList.update k (case map_of m1 k of Some v \<Rightarrow> jsadd v amt | None \<Rightarrow> NaN) m1)"

text \<open>
  Steps A and B for one valid row. An object is never falsy, so
  \<open>if (!classMap[className]) classMap[className] = {}\<close> creates the inner map exactly
  when the class has none yet; the inner map is then updated in place.
  \<open>foundClasses\<close> is a \<open>Set\<close>, kept as the list of its members in insertion order.
\<close>

definition aggregate :: "aggState \<Rightarrow> jsstring \<times> jsnum \<times> jsstring \<Rightarrow> aggState" where
  "aggregate st row =
     (case row of (dateKey, amt, className) \<Rightarrow>
        let cm1 = (case map_of (classMap st) className of
                     None \<Rightarrow> AList.update className [] (classMap st)
                   | Some _ \<Rightarrow> classMap st);
            inner = (case map_of cm1 className of Some m \<Rightarrow> m | None \<Rightarrow> [])
        in \<lparr> totalMap = addTo (totalMap st) dateKey amt,
             classMap = AList.update className (addTo inner dateKey amt) cm1,
             foundClasses = (if className \<in> set (foundClasses st) then foundClasses st
                             else foundClasses st @ [className]),
             validRowCount = validRowCount st + 1 \<rparr>)"

text \<open>The row loop, over the lines after the header.\<close>

fun processLines ::
  "calendar \<Rightarrow> nat \<Rightarrow> nat \<Rightarrow> nat option \<Rightarrow> aggState \<Rightarrow> jsstring list \<Rightarrow> aggState" where
  "processLines newDate dateIndex amountIndex classIndex st [] = st"
| "processLines newDate dateIndex amountIndex classIndex st (l # ls) =
     processLines newDate dateIndex amountIndex classIndex
       (case normalizeRow newDate dateIndex amountIndex classIndex l of
          None \<Rightarrow> st
        | Some row \<Rightarrow> aggregate st row)
       ls"

section \<open>Dataset assembly\<close>

text \<open>
  \<open>a.date.localeCompare(b.date)\<close> compares two date keys. A date key consists of ASCII
  digits and hyphens only, and on such strings the collation order is the order of the
  code units, hyphen before digits; the comparison is modelled as the lexicographic
  comparison of the code units.
\<close>

definition localeCompare :: "jsstring \<Rightarrow> jsstring \<Rightarrow> int" where
  "localeCompare a b = (if a < b then - 1 else if b < a then 1 else 0)"

definition sortFn :: "MonthlyData \<Rightarrow> MonthlyData \<Rightarrow> int" where
  "sortFn a b = localeCompare (date a) (date b)"

text \<open>
  \<open>Array.prototype.sort\<close> with a comparator is a stable sort; for a consistent
  comparator its result does not depend on the algorithm. It is written as an
  insertion sort that puts an element before the first one it does not exceed.
\<close>

fun insertBy :: "('a \<Rightarrow> 'a \<Rightarrow> int) \<Rightarrow> 'a \<Rightarrow> 'a list \<Rightarrow> 'a list" where
  "insertBy cmp x [] = [x]"
| "insertBy cmp x (y # ys) = (if cmp x y \<le> 0 then x # y # ys else y # insertBy cmp x ys)"

definition arraySort :: "('a \<Rightarrow> 'a \<Rightarrow> int) \<Rightarrow> 'a list \<Rightarrow> 'a list" where
  "arraySort cmp xs = foldr (insertBy cmp) xs []"

text \<open>\<open>Object.entries(m).map(([date, amount]) => ({ date, amount })).sort(sortFn)\<close>\<close>

definition toSeries :: "jsnum obj \<Rightarrow> MonthlyData list" where
  "toSeries m = arraySort sortFn (map (\<lambda>(d, a). \<lparr> date = d, amount = a \<rparr>) m)"

text \<open>
  The \<open>forEach\<close> over \<open>foundClasses\<close> that fills \<open>byClass\<close>. Were \<open>classMap[cls]\<close>
  undefined, \<open>Object.entries\<close> would throw; the result \<open>None\<close> stands for that exception,
  which the \<open>catch\<close> clause of \<open>parseCSV\<close> turns into an error.
\<close>

fun fillByClass ::
  "(jsnum obj) obj \<Rightarrow> jsstring list \<Rightarrow> (MonthlyData list) obj \<Rightarrow> (MonthlyData list) obj option" where
  "fillByClass cm [] acc = Some acc"
| "fillByClass cm (cls # rest) acc =
     (case map_of cm cls of
        None \<Rightarrow> None
      | Some m \<Rightarrow> fillByClass cm rest (AList.update cls (toSeries m) acc))"

text \<open>
  \<open>parseCSV\<close>, from the text that the file reader delivers. \<open>sort\<close> without a comparator
  orders strings by their code units.
\<close>

definition parseCSV :: "calendar \<Rightarrow> jsstring \<Rightarrow> error + ParsedDataSet" where
  "parseCSV newDate text =
     (if text = [] \<or> trim text = [] then Inl (Error msgEmptyFile)
      else
        let lines = splitLines [] text in
        if length lines < 2 then Inl (Error msgTooFewLines)
        else
          let headers = headersOf (lines ! 0);
              dateIndex = dateIndexOf headers;
              amountIndex = amountIndexOf headers;
              classIndex = classIndexOf headers
          in case (dateIndex, amountIndex) of
               (Some di, Some ai) \<Rightarrow>
                 let st = processLines newDate di ai classIndex
                            \<lparr> totalMap = [], classMap = [], foundClasses = [], validRowCount = 0 \<rparr>
                            (tl lines)
                 in if validRowCount st = 0 then Inl (Error msgNoData)
                    else
                      (case fillByClass (classMap st) (foundClasses st) [] of
                         None \<Rightarrow> Inl (Error msgProcessing)
                       | Some bc \<Rightarrow>
                           Inr \<lparr> totalByDate = toSeries (totalMap st),
                                 byClass = bc,
                                 availableClasses = sort (foundClasses st) \<rparr>)
             | _ \<Rightarrow> Inl (Error (msgMissingColumns (lines ! 0))))"

section \<open>Notions used to state the properties\<close>

text \<open>
  The rows that survive normalization, in file order: for a list of lines, and for a
  whole file (none when the date or the amount column is not resolved).
\<close>

definition survivingRows ::
  "calendar \<Rightarrow> nat \<Rightarrow> nat \<Rightarrow> nat option \<Rightarrow> jsstring list \<Rightarrow> (jsstring \<times> jsnum \<times> jsstring) list" where
  "survivingRows newDate dateIndex amountIndex classIndex ls =
     List.map_filter (normalizeRow newDate dateIndex amountIndex classIndex) ls"

definition fileRows :: "calendar \<Rightarrow> jsstring \<Rightarrow> (jsstring \<times> jsnum \<times> jsstring) list" where
  "fileRows newDate text =
     (let lines = splitLines [] text; headers = headersOf (lines ! 0)
      in case (dateIndexOf headers, amountIndexOf headers) of
           (Some di, Some ai) \<Rightarrow> survivingRows newDate di ai (classIndexOf headers) (tl lines)
         | _ \<Rightarrow> [])"

text \<open>The state in which the row loop starts.\<close>

definition emptyState :: aggState where
  "emptyState = \<lparr> totalMap = [], classMap = [], foundClasses = [], validRowCount = 0 \<rparr>"

text \<open>
  What holds of the aggregation state throughout the loop: the keys of each map are
  distinct, and the keys of \<open>classMap\<close> are the members of \<open>foundClasses\<close>, in order.
\<close>

definition wellFormed :: "aggState \<Rightarrow> bool" where
  "wellFormed st =
     (distinct (map fst (totalMap st))
      \<and> map fst (classMap st) = foundClasses st
      \<and> distinct (foundClasses st)
      \<and> (\<forall>c m. (c, m) \<in> set (classMap st) \<longrightarrow> distinct (map fst m)))"

text \<open>
  The tokenizer as the specification words it: a comma separates two fields exactly
  when an even number of quote characters precedes it in the line.
\<close>

definition quotesBefore :: "jsstring \<Rightarrow> nat \<Rightarrow> nat" where
  "quotesBefore line i = length (filter (\<lambda>c. c = 34) (take i line))"

definition separators :: "jsstring \<Rightarrow> nat list" where
  "separators line =
     filter (\<lambda>i. line ! i = 44 \<and> even (quotesBefore line i)) [0..<length line]"

text \<open>\<open>Number.isFinite\<close>: neither an infinity nor NaN.\<close>

definition isFinite :: "jsnum \<Rightarrow> bool" where
  "isFinite x = (case x of Fin _ \<Rightarrow> True | _ \<Rightarrow> False)"







definition valueOf :: "jsnum \<Rightarrow> rat" where
  "valueOf x = (case x of Fin q \<Rightarrow> q | _ \<Rightarrow> 0)"

text \<open>
  Used in the proofs: the sum of the amounts of a list of rows; the map that the
  statements \<open>if (!m[k]) m[k] = 0; m[k] += amt\<close> build from a list of rows; and the rows
  on which every one of these additions is exact.
\<close>

definition amountSum :: "(jsstring \<times> jsnum \<times> jsstring) list \<Rightarrow> rat" where
  "amountSum rows = sum_list (map (\<lambda>(k, amt, cls). valueOf amt) rows)"



section \<open>Binary64 rounding is exact on small dyadic numbers\<close>

lemma ilog2_le:
  assumes "0 < a"
  shows "2 powi (ilog2 a) \<le> a"
proof -
  obtain n d where nd: "quotient_of a = (n, d)" by (cases "quotient_of a")
  have d: "0 < d" using quotient_of_denom_pos [OF nd] .
  have a: "a = of_int n / of_int d" using quotient_of_div [OF nd] .
  have n: "0 < n" using assms a d by (simp add: zero_less_divide_iff)
  define fn where "fn = floorlog 2 (nat n)"
  define fd where "fd = floorlog 2 (nat d)"
  have fn1: "2 ^ (fn - 1) \<le> nat n" and fd1: "nat d < 2 ^ fd"
    using floorlog_bounds [of "nat n" 2] floorlog_bounds [of "nat d" 2] n d
    by (simp_all add: fn_def fd_def)
  have "fn \<noteq> 0"
    unfolding fn_def using n by (simp add: floorlog_eq_zero_iff)
  then have fnpos: "0 < fn" by simp
  have "(2::rat) ^ (fn - 1) \<le> of_nat (nat n)"
    using fn1 by (metis of_nat_le_iff of_nat_numeral of_nat_power)
  then have low: "(2::rat) ^ (fn - 1) \<le> of_int n" using n by simp
  have "(of_nat (nat d) :: rat) < 2 ^ fd"
    using fd1 by (metis of_nat_less_iff of_nat_numeral of_nat_power)
  then have up: "(of_int d :: rat) < 2 ^ fd" using d by simp
  have "(2::rat) powi (int fn - int fd - 1) = 2 ^ (fn - 1) / 2 ^ fd"
  proof -
    obtain j where j: "fn = Suc j" using fnpos by (cases fn) auto
    have "int fn - int fd - 1 = int j - int fd" using j by simp
    then have "(2::rat) powi (int fn - int fd - 1) = 2 powi (int j - int fd)" by (simp only:)
    also have "\<dots> = 2 ^ j / 2 ^ fd"
      using power_int_diff [of "2::rat" "int j" "int fd"] by simp
    finally show ?thesis using j by simp
  qed
  also have "\<dots> \<le> of_int n / 2 ^ fd"
    using low by (simp add: divide_right_mono)
  also have "\<dots> \<le> of_int n / of_int d"
    using up d n by (simp add: frac_le)
  finally have below: "(2::rat) powi (int fn - int fd - 1) \<le> a" using a by simp
  show ?thesis
    using below by (simp add: ilog2_def nd fn_def fd_def Let_def)
qed

lemma roundTiesToEven_of_int [simp]: "roundTiesToEven (of_int z) = z"
  by (simp add: roundTiesToEven_def)

lemma toDouble_exact:
  assumes m: "\<bar>m\<bar> < 2 ^ 53" and k: "- 1074 \<le> k" and big: "of_int \<bar>m\<bar> * 2 powi k < (2::rat) powi 1024"
  shows "toDouble (of_int m * 2 powi k) = Fin (of_int m * 2 powi k)"
proof (cases "m = 0")
  case True
  then show ?thesis by (simp add: toDouble_def)
next
  case False
  define q :: rat where "q = of_int m * 2 powi k"
  define a :: rat where "a = \<bar>q\<bar>"
  have a_eq: "a = of_int \<bar>m\<bar> * 2 powi k"
    by (simp add: a_def q_def abs_mult power_int_abs)
  have apos: "0 < a" using False by (simp add: a_eq zero_less_mult_iff)
  have qnz: "q \<noteq> 0" using apos a_def by auto
  define u where "u = max (ilog2 a - 52) (- 1074)"
  have "2 powi (ilog2 a) \<le> a" using ilog2_le [OF apos] .
  also have "a < 2 ^ 53 * 2 powi k"
  proof -
    have "(of_int \<bar>m\<bar> :: rat) < of_int (2 ^ 53)" using m by (simp only: of_int_less_iff)
    then show ?thesis by (simp add: a_eq)
  qed
  also have "(2::rat) ^ 53 * 2 powi k = 2 powi (53 + k)"
    by (simp add: power_int_add)
  finally have "(2::rat) powi (ilog2 a) < 2 powi (53 + k)" .
  then have "ilog2 a < 53 + k"
    using power_int_increasing [of "53 + k" "ilog2 a" "2::rat"] by (cases "ilog2 a < 53 + k") auto
  then have uk: "u \<le> k" using k by (simp add: u_def)
  have quot: "a / 2 powi u = of_int (\<bar>m\<bar> * 2 ^ nat (k - u))"
  proof -
    have "a / 2 powi u = of_int \<bar>m\<bar> * 2 powi (k - u)"
      by (simp add: a_eq power_int_diff)
    also have "(2::rat) powi (k - u) = 2 ^ nat (k - u)"
      using uk by (simp add: power_int_nonneg_exp)
    finally show ?thesis by simp
  qed
  have r: "of_int (roundTiesToEven (a / 2 powi u)) * 2 powi u = a"
  proof -
    have "of_int (roundTiesToEven (a / 2 powi u)) * 2 powi u = (a / 2 powi u) * 2 powi u"
      unfolding quot roundTiesToEven_of_int ..
    then show ?thesis by simp
  qed
  have notbig: "\<not> 2 powi 1024 \<le> a" using big by (simp add: a_eq)
  have "toDouble q = Fin (if 0 < q then a else - a)"
    using qnz notbig r
    by (simp add: toDouble_def Let_def a_def [symmetric] u_def [symmetric])
  also have "(if 0 < q then a else - a) = q" by (simp add: a_def)
  finally show ?thesis by (simp add: q_def)
qed

lemma toDouble_of_int:
  assumes "\<bar>m\<bar> < 2 ^ 53"
  shows "toDouble (of_int m) = Fin (of_int m)"
proof -
  have "(of_int \<bar>m\<bar> :: rat) < of_int (2 ^ 53)" using assms by (simp only: of_int_less_iff)
  also have "(of_int (2 ^ 53) :: rat) < 2 powi 1024" by simp
  finally have "of_int \<bar>m\<bar> * 2 powi 0 < (2::rat) powi 1024" by simp
  from toDouble_exact [OF assms _ this] show ?thesis by simp
qed

lemma toDouble_numeral:
  "(numeral w :: int) < 2 ^ 53 \<Longrightarrow> toDouble (numeral w) = Fin (numeral w)"
  using toDouble_of_int [of "numeral w"] by simp

lemma toDouble_neg_numeral:
  "(numeral w :: int) < 2 ^ 53 \<Longrightarrow> toDouble (- numeral w) = Fin (- numeral w)"
  using toDouble_of_int [of "- numeral w"] by simp

lemma toDouble_zero: "toDouble 0 = Fin 0"
  by (simp add: toDouble_def)

lemma toDouble_one: "toDouble 1 = Fin 1"
  using toDouble_of_int [of 1] by simp

lemmas eval_defs =
  parseCSV_def Let_def js_def trim_def isWhite_def headersOf_def parseCSVLine_def cleanField_def
  normalizeHeader_def normalizeHeaderUnit_def dateIndexOf_def amountIndexOf_def classIndexOf_def
  normalizeRow_def dateKeyOf_def isDigit_def parseFloat_def stripSign_def trimStart_def
  digitsValue_def exponentPart_def isNaN_def aggregate_def addTo_def falsy_def
  toSeries_def arraySort_def sortFn_def localeCompare_def
  toDouble_numeral toDouble_neg_numeral toDouble_zero toDouble_one

section \<open>The row loop as a fold over the surviving rows\<close>

lemma processLines_foldl:
  "processLines newDate di ai ci st ls = foldl aggregate st (survivingRows newDate di ai ci ls)"
  by (induction ls arbitrary: st) (auto simp: survivingRows_def split: option.splits)

lemma validRowCount_aggregate: "validRowCount (aggregate st row) = validRowCount st + 1"
  by (cases row) (simp add: aggregate_def Let_def)

lemma validRowCount_foldl:
  "validRowCount (foldl aggregate st rows) = validRowCount st + length rows"
  by (induction rows arbitrary: st) (simp_all add: validRowCount_aggregate)

lemma set_update_subset: "set (AList.update k v al) \<subseteq> insert (k, v) (set al)"
  by (induction al) auto

lemma addTo_distinct: "distinct (map fst m) \<Longrightarrow> distinct (map fst (addTo m k a))"
  by (simp add: addTo_def Let_def distinct_update)

lemma aggregate_wellFormed:
  assumes "wellFormed st"
  shows "wellFormed (aggregate st row)"
proof -
  obtain k a cls where row: "row = (k, a, cls)" by (cases row)
  define cm1 where "cm1 = (case map_of (classMap st) cls of
                     None \<Rightarrow> AList.update cls [] (classMap st) | Some _ \<Rightarrow> classMap st)"
  define inner where "inner = (case map_of cm1 cls of Some m \<Rightarrow> m | None \<Rightarrow> [])"
  have agg: "aggregate st row =
      \<lparr> totalMap = addTo (totalMap st) k a,
        classMap = AList.update cls (addTo inner k a) cm1,
        foundClasses = (if cls \<in> set (foundClasses st) then foundClasses st
                        else foundClasses st @ [cls]),
        validRowCount = validRowCount st + 1 \<rparr>"
    by (simp add: aggregate_def row Let_def cm1_def inner_def)
  from assms have d1: "distinct (map fst (totalMap st))"
    and keys: "map fst (classMap st) = foundClasses st"
    and d2: "distinct (foundClasses st)"
    and d3: "\<And>c m. (c, m) \<in> set (classMap st) \<Longrightarrow> distinct (map fst m)"
    by (auto simp: wellFormed_def)
  have mem: "cls \<in> set (foundClasses st) \<longleftrightarrow> map_of (classMap st) cls \<noteq> None"
    using keys by (metis map_of_eq_None_iff set_map)
  have cm1_set: "set cm1 \<subseteq> insert (cls, []) (set (classMap st))"
    using set_update_subset [of cls "[]" "classMap st"]
    by (auto simp: cm1_def split: option.splits)
  have cm1_keys: "map fst cm1 = (if cls \<in> set (foundClasses st) then foundClasses st
                        else foundClasses st @ [cls])"
    using mem keys by (auto simp: cm1_def update_keys split: option.splits)
  have cls_in: "cls \<in> fst ` set cm1"
    using cm1_keys by (metis (full_types) in_set_conv_decomp list.set_map)
  have cm1_inner: "\<And>c m. (c, m) \<in> set cm1 \<Longrightarrow> distinct (map fst m)"
    using cm1_set d3 by auto
  have inner_d: "distinct (map fst inner)"
    unfolding inner_def using cm1_inner by (auto split: option.splits dest: map_of_SomeD)
  have keys': "map fst (AList.update cls (addTo inner k a) cm1) = map fst cm1"
    using cls_in by (simp add: update_keys)
  have inner': "\<And>c m. (c, m) \<in> set (AList.update cls (addTo inner k a) cm1) \<Longrightarrow> distinct (map fst m)"
    using set_update_subset [of cls "addTo inner k a" cm1] cm1_inner addTo_distinct [OF inner_d]
    by auto
  show ?thesis
    unfolding agg wellFormed_def
    using d1 d2 keys' cm1_keys inner' by (auto simp: addTo_distinct)
qed

lemma foldl_aggregate_wellFormed:
  "wellFormed st \<Longrightarrow> wellFormed (foldl aggregate st rows)"
  by (induction rows arbitrary: st) (simp_all add: aggregate_wellFormed)

lemma emptyState_wellFormed: "wellFormed emptyState"
  by (simp add: wellFormed_def emptyState_def)

section \<open>Sorting and assembly\<close>







lemma fillByClass_total:
  "\<forall>c \<in> set fc. map_of cm c \<noteq> None \<Longrightarrow> \<exists>bc. fillByClass cm fc acc = Some bc"
  by (induction fc arbitrary: acc) auto

lemma parseCSV_InrD:
  assumes "parseCSV newDate text = Inr ds"
  obtains di ai st where
    "text \<noteq> []" "trim text \<noteq> []" "2 \<le> length (splitLines [] text)"
    "dateIndexOf (headersOf (splitLines [] text ! 0)) = Some di"
    "amountIndexOf (headersOf (splitLines [] text ! 0)) = Some ai"
    "st = foldl aggregate emptyState
            (survivingRows newDate di ai (classIndexOf (headersOf (splitLines [] text ! 0)))
               (tl (splitLines [] text)))"
    "validRowCount st \<noteq> 0"
    "fillByClass (classMap st) (foundClasses st) [] = Some (byClass ds)"
    "totalByDate ds = toSeries (totalMap st)"
    "availableClasses ds = sort (foundClasses st)"
proof -
  from assms have a: "text \<noteq> []" "trim text \<noteq> []" "2 \<le> length (splitLines [] text)"
    by (auto simp: parseCSV_def Let_def split: if_splits)
  from assms a obtain di ai where
    di: "dateIndexOf (headersOf (splitLines [] text ! 0)) = Some di"
    and ai: "amountIndexOf (headersOf (splitLines [] text ! 0)) = Some ai"
    by (auto simp: parseCSV_def Let_def split: if_splits option.splits)
  define st where "st = foldl aggregate emptyState
            (survivingRows newDate di ai (classIndexOf (headersOf (splitLines [] text ! 0)))
               (tl (splitLines [] text)))"
  from assms a di ai have
    "validRowCount st \<noteq> 0 \<and>
     fillByClass (classMap st) (foundClasses st) [] = Some (byClass ds) \<and>
     totalByDate ds = toSeries (totalMap st) \<and>
     availableClasses ds = sort (foundClasses st)"
    by (auto simp: parseCSV_def Let_def st_def processLines_foldl emptyState_def
        split: if_splits option.splits)
  with a di ai st_def that show thesis by blast
qed

section \<open>The outcomes of \<open>parseCSV\<close>\<close>

lemma trim_Nil [simp]: "trim [] = []"
  by (simp add: trim_def)

lemma parseCSV_unfold:
  "parseCSV newDate text =
     (if trim text = [] then Inl (Error msgEmptyFile)
      else if length (splitLines [] text) < 2 then Inl (Error msgTooFewLines)
      else case (dateIndexOf (headersOf (splitLines [] text ! 0)),
                 amountIndexOf (headersOf (splitLines [] text ! 0))) of
             (Some di, Some ai) \<Rightarrow>
               (let st = foldl aggregate emptyState
                           (survivingRows newDate di ai
                              (classIndexOf (headersOf (splitLines [] text ! 0)))
                              (tl (splitLines [] text)))
                in if validRowCount st = 0 then Inl (Error msgNoData)
                   else case fillByClass (classMap st) (foundClasses st) [] of
                          None \<Rightarrow> Inl (Error msgProcessing)
                        | Some bc \<Rightarrow>
                            Inr \<lparr> totalByDate = toSeries (totalMap st), byClass = bc,
                                  availableClasses = sort (foundClasses st) \<rparr>)
           | _ \<Rightarrow> Inl (Error (msgMissingColumns (splitLines [] text ! 0))))"
proof -
  have "text = [] \<or> trim text = [] \<longleftrightarrow> trim text = []" by auto
  then show ?thesis
    unfolding parseCSV_def Let_def processLines_foldl emptyState_def by simp
qed

lemma parseCSV_missing:
  assumes "dateIndexOf (headersOf (splitLines [] text ! 0)) = None
           \<or> amountIndexOf (headersOf (splitLines [] text ! 0)) = None"
  shows "parseCSV newDate text =
           Inl (Error (if trim text = [] then msgEmptyFile
                       else if length (splitLines [] text) < 2 then msgTooFewLines
                       else msgMissingColumns (splitLines [] text ! 0)))"
  using assms unfolding parseCSV_unfold by (auto split: option.splits)

lemma parseCSV_no_rows:
  assumes "dateIndexOf (headersOf (splitLines [] text ! 0)) = Some di"
    and "amountIndexOf (headersOf (splitLines [] text ! 0)) = Some ai"
    and "survivingRows newDate di ai (classIndexOf (headersOf (splitLines [] text ! 0)))
           (tl (splitLines [] text)) = []"
  shows "parseCSV newDate text =
           Inl (Error (if trim text = [] then msgEmptyFile
                       else if length (splitLines [] text) < 2 then msgTooFewLines
                       else msgNoData))"
  using assms unfolding parseCSV_unfold by (simp add: emptyState_def)

lemma classMap_keys_found:
  assumes "wellFormed st" and "c \<in> set (foundClasses st)"
  shows "map_of (classMap st) c \<noteq> None"
proof -
  from assms have "c \<in> fst ` set (classMap st)"
    by (metis wellFormed_def set_map)
  then show ?thesis by (simp add: map_of_eq_None_iff)
qed

lemma parseCSV_success:
  assumes "trim text \<noteq> []" and "2 \<le> length (splitLines [] text)"
    and "dateIndexOf (headersOf (splitLines [] text ! 0)) = Some di"
    and "amountIndexOf (headersOf (splitLines [] text ! 0)) = Some ai"
    and "survivingRows newDate di ai (classIndexOf (headersOf (splitLines [] text ! 0)))
           (tl (splitLines [] text)) \<noteq> []"
  shows "\<exists>ds. parseCSV newDate text = Inr ds"
proof -
  define st where "st = foldl aggregate emptyState
      (survivingRows newDate di ai (classIndexOf (headersOf (splitLines [] text ! 0)))
         (tl (splitLines [] text)))"
  have wf: "wellFormed st"
    unfolding st_def by (rule foldl_aggregate_wellFormed) (rule emptyState_wellFormed)
  have cnt: "validRowCount st \<noteq> 0"
    using assms(5) by (simp add: st_def validRowCount_foldl)
  have "\<forall>c \<in> set (foundClasses st). map_of (classMap st) c \<noteq> None"
    using classMap_keys_found [OF wf] by blast
  from fillByClass_total [OF this] obtain bc
    where "fillByClass (classMap st) (foundClasses st) [] = Some bc" by blast
  with assms(1-4) cnt show ?thesis
    unfolding parseCSV_unfold by (simp add: st_def [symmetric])
qed

section \<open>Rows and classes\<close>

lemma normalizeRow_SomeD:
  assumes "normalizeRow newDate di ai ci rawLine = Some (k, amt, cls)"
  shows "trim rawLine \<noteq> []"
    and "max di ai < length (parseCSVLine (trim rawLine))"
    and "parseCSVLine (trim rawLine) ! di \<noteq> []"
    and "parseCSVLine (trim rawLine) ! ai \<noteq> []"
    and "k = dateKeyOf newDate (parseCSVLine (trim rawLine) ! di)"
    and "k \<noteq> []"
    and "amt = parseFloat (filter (\<lambda>c. c \<noteq> 44) (parseCSVLine (trim rawLine) ! ai))"
    and "amt \<noteq> NaN"
    and "cls = (case (case ci of
                       Some i \<Rightarrow> if i < length (parseCSVLine (trim rawLine))
                                 then Some (parseCSVLine (trim rawLine) ! i) else None
                     | None \<Rightarrow> Some (js ''Unclassified'')) of
                  Some rc \<Rightarrow> if trim rc \<noteq> [] then trim rc else js ''Unknown''
                | None \<Rightarrow> js ''Unknown'')"
  using assms unfolding normalizeRow_def Let_def isNaN_def
  by (auto split: if_splits)

lemma trim_Unclassified: "trim (js ''Unclassified'') = js ''Unclassified''"
  by (simp add: trim_def js_def isWhite_def)

lemma normalizeRow_no_class_column:
  "normalizeRow newDate di ai None rawLine = Some (k, amt, cls) \<Longrightarrow> cls = js ''Unclassified''"
proof -
  assume "normalizeRow newDate di ai None rawLine = Some (k, amt, cls)"
  from normalizeRow_SomeD(9) [OF this] show ?thesis
    using trim_Unclassified by (simp add: js_def)
qed

lemma foundClasses_aggregate:
  "foundClasses (aggregate st (k, a, c)) =
     (if c \<in> set (foundClasses st) then foundClasses st else foundClasses st @ [c])"
  by (simp add: aggregate_def Let_def)

lemma foundClasses_single:
  assumes "\<forall>r \<in> set rows. snd (snd r) = c" and "foundClasses st = [] \<or> foundClasses st = [c]"
  shows "foundClasses (foldl aggregate st rows) = (if rows = [] then foundClasses st else [c])"
  using assms
proof (induction rows arbitrary: st)
  case Nil
  then show ?case by simp
next
  case (Cons r rows)
  obtain k a where r: "r = (k, a, c)" using Cons.prems(1) by (cases r) auto
  have step: "foundClasses (aggregate st r) = [c]"
    using Cons.prems(2) by (auto simp: r foundClasses_aggregate)
  have "foundClasses (foldl aggregate (aggregate st r) rows)
          = (if rows = [] then foundClasses (aggregate st r) else [c])"
    using Cons.prems(1) step by (intro Cons.IH) auto
  then show ?case using step by simp
qed

lemma survivingRows_no_class_column:
  "\<forall>r \<in> set (survivingRows newDate di ai None ls). snd (snd r) = js ''Unclassified''"
proof
  fix r assume "r \<in> set (survivingRows newDate di ai None ls)"
  then obtain l where "normalizeRow newDate di ai None l = Some r"
    by (auto simp: survivingRows_def List.map_filter_def)
  then show "snd (snd r) = js ''Unclassified''"
    by (cases r) (auto dest: normalizeRow_no_class_column)
qed

section \<open>The tokenizer\<close>

lemma upt_Suc_shift: "[0..<Suc n] = 0 # map Suc [0..<n]"
  by (simp add: upt_conv_Cons map_Suc_upt del: upt_Suc)

lemma splitFields_length:
  "length (splitFields result current inQuotes line) =
     length result
     + Suc (length (filter (\<lambda>i. line ! i = 44 \<and> even (quotesBefore line i) = (\<not> inQuotes))
                      [0..<length line]))"
proof (induction line arbitrary: result current inQuotes)
  case Nil
  then show ?case by simp
next
  case (Cons c cs)
  have idx: "[0..<length (c # cs)] = 0 # map Suc [0..<length cs]"
    using upt_Suc_shift [of "length cs"] by simp
  show ?case
  proof (cases "c = 34")
    case True
    then show ?thesis
      unfolding idx
      by (simp add: Cons.IH filter_map comp_def quotesBefore_def)
  next
    case False
    then show ?thesis
      unfolding idx
      by (simp add: Cons.IH filter_map comp_def quotesBefore_def)
  qed
qed

lemma splitFields_quoted_span:
  "34 \<notin> set q \<Longrightarrow>
     splitFields result current True (q @ 34 # rest) = splitFields result (current @ q) False rest"
  by (induction q arbitrary: current) auto

section \<open>Aggregation of rows without rounding\<close>










lemma amountSum_Nil [simp]: "amountSum [] = 0"
  by (simp add: amountSum_def)


















section \<open>A sum that rounds\<close>




section \<open>Worked examples\<close>


text \<open>A file without a class column.\<close>

lemma example_no_class_column:
  "parseCSV (\<lambda>_. None) (js ''billPeriod,amount'' @ [10] @ js ''202309,5'')
   = Inr \<lparr> totalByDate = [\<lparr> date = js ''2023-09'', amount = Fin 5 \<rparr>],
           byClass = [(js ''Unclassified'', [\<lparr> date = js ''2023-09'', amount = Fin 5 \<rparr>])],
           availableClasses = [js ''Unclassified''] \<rparr>"
  by (simp add: eval_defs)



section \<open>Date normalization: the digit rules\<close>

text \<open>
  C3. Whatever the raw date field is: when stripping the non-digits leaves exactly six
  digits, the key is the first four digits, a hyphen and the last two; when exactly
  eight digits remain, the key is built in the same way from the first six of them.
  In particular 202309, 20230915 and 2023-09-15 all give 2023-09.
\<close>

theorem dateKeyOf_digit_rules:
  "(length (filter isDigit raw) = 6 \<longrightarrow>
      dateKeyOf newDate raw = take 4 (filter isDigit raw) @ js ''-'' @ drop 4 (filter isDigit raw))
   \<and> (length (filter isDigit raw) = 8 \<longrightarrow>
      dateKeyOf newDate raw =
        take 4 (take 6 (filter isDigit raw)) @ js ''-'' @ drop 4 (take 6 (filter isDigit raw)))
   \<and> dateKeyOf newDate (js ''202309'') = js ''2023-09''
   \<and> dateKeyOf newDate (js ''20230915'') = js ''2023-09''
   \<and> dateKeyOf newDate (js ''2023-09-15'') = js ''2023-09''"
proof -
  have six: "length (filter isDigit raw) = 6 \<longrightarrow>
      dateKeyOf newDate raw = take 4 (filter isDigit raw) @ js ''-'' @ drop 4 (filter isDigit raw)"
    by (simp add: dateKeyOf_def js_def Let_def)
  have "drop 4 (take 6 d) = take 2 (drop 4 d)" for d :: jsstring
    by (simp add: drop_take)
  then have eight: "length (filter isDigit raw) = 8 \<longrightarrow>
      dateKeyOf newDate raw =
        take 4 (take 6 (filter isDigit raw)) @ js ''-'' @ drop 4 (take 6 (filter isDigit raw))"
    by (simp add: dateKeyOf_def js_def Let_def)
  have ex1: "dateKeyOf newDate (js ''202309'') = js ''2023-09''"
    by (simp add: dateKeyOf_def js_def isDigit_def)
  have ex2: "dateKeyOf newDate (js ''20230915'') = js ''2023-09''"
    by (simp add: dateKeyOf_def js_def isDigit_def)
  have ex3: "dateKeyOf newDate (js ''2023-09-15'') = js ''2023-09''"
    by (simp add: dateKeyOf_def js_def isDigit_def)
  from six eight ex1 ex2 ex3 show ?thesis by blast
qed

theorem dateKeyOf_digit_rules_witness:
  "length (filter isDigit (js ''2023/09'')) = 6
   \<and> dateKeyOf (\<lambda>_. None) (js ''2023/09'') = js ''2023-09''
   \<and> length (filter isDigit (js ''2023.09.15'')) = 8
   \<and> dateKeyOf (\<lambda>_. None) (js ''2023.09.15'') = js ''2023-09''"
proof -
  have a: "length (filter isDigit (js ''2023/09'')) = 6"
    by (simp add: js_def isDigit_def)
  have b: "length (filter isDigit (js ''2023.09.15'')) = 8"
    by (simp add: js_def isDigit_def)
  from a dateKeyOf_digit_rules [of "js ''2023/09''" "\<lambda>_. None"]
  have "dateKeyOf (\<lambda>_. None) (js ''2023/09'') = js ''2023-09''"
    by (simp add: js_def isDigit_def)
  moreover from b dateKeyOf_digit_rules [of "js ''2023.09.15''" "\<lambda>_. None"]
  have "dateKeyOf (\<lambda>_. None) (js ''2023.09.15'') = js ''2023-09''"
    by (simp add: js_def isDigit_def)
  ultimately show ?thesis using a b by blast
qed

text \<open>
  C9, as the code has it. The raw date 09/2023 does not reach the calendar branch:
  stripping its non-digits leaves the six digits 092023, so the six-digit rule applies
  and the key is 0920-23, whatever the host's date parser would say.
\<close>

theorem dateKeyOf_slash_month_year:
  "length (filter isDigit (js ''09/2023'')) = 6
   \<and> dateKeyOf newDate (js ''09/2023'') = js ''0920-23''"
  by (simp add: dateKeyOf_def js_def isDigit_def)

text \<open>
  The claim as the specification states it, that 09/2023 is handled by calendar
  parsing, fails: with a date parser that reads the field as September 2023 the
  calendar branch would give 2023-09, and the code gives 0920-23.
\<close>

theorem dateKeyOf_slash_month_year_counterexample:
  "dateKeyOf (\<lambda>_. Some (2023, 9)) (js ''09/2023'')
     \<noteq> calendarKey (\<lambda>_. Some (2023, 9)) (js ''09/2023'')"
proof -
  have "calendarKey (\<lambda>_. Some (2023, 9)) (js ''09/2023'') = js ''2023-09''"
    by (simp add: calendarKey_def showInt_def padStart2_def js_def) code_simp
  moreover have "dateKeyOf (\<lambda>_. Some (2023, 9)) (js ''09/2023'') = js ''0920-23''"
    by (simp add: dateKeyOf_def js_def isDigit_def)
  ultimately show ?thesis by (simp add: js_def)
qed

section \<open>The tokenizer and quoted fields\<close>

text \<open>
  C6. For every line, the number of fields is one more than the number of commas that
  stand outside a quoted span, a comma being outside when an even number of quote
  characters precedes it. A quoted span is literal text: read outside quotes, a quote,
  any text \<open>q\<close> without quotes (commas included) and the closing quote leave the
  tokenizer outside quotes again with \<open>q\<close> appended to the current field. So the
  quoted field "Revenue, Net" is one field with the value Revenue, Net, alone on a
  line and in a class column.
\<close>

theorem tokenizer_quotes:
  \<open>length (parseCSVLine line) = Suc (length (separators line))
   \<and> (34 \<notin> set q \<longrightarrow>
        splitFields result current False (34 # q @ 34 # rest)
          = splitFields result (current @ q) False rest)
   \<and> parseCSVLine (js ''"Revenue, Net"'') = [js ''Revenue, Net'']
   \<and> parseCSVLine (js ''202309,100,"Revenue, Net"'')
        = [js ''202309'', js ''100'', js ''Revenue, Net'']\<close>
proof (intro conjI impI)
  show "length (parseCSVLine line) = Suc (length (separators line))"
    by (simp add: parseCSVLine_def splitFields_length separators_def)
next
  assume "34 \<notin> set q"
  then show "splitFields result current False (34 # q @ 34 # rest)
          = splitFields result (current @ q) False rest"
    by (simp add: splitFields_quoted_span)
next
  show \<open>parseCSVLine (js ''"Revenue, Net"'') = [js ''Revenue, Net'']\<close>
    by (simp add: parseCSVLine_def js_def cleanField_def trim_def isWhite_def)
next
  show \<open>parseCSVLine (js ''202309,100,"Revenue, Net"'')
        = [js ''202309'', js ''100'', js ''Revenue, Net'']\<close>
    by (simp add: parseCSVLine_def js_def cleanField_def trim_def isWhite_def)
qed

theorem tokenizer_quotes_witness:
  "34 \<notin> set (js ''Revenue, Net'')
   \<and> splitFields [] [] False (34 # js ''Revenue, Net'' @ 34 # js '',x'')
       = splitFields [] (js ''Revenue, Net'') False (js '',x'')
   \<and> splitFields [] (js ''Revenue, Net'') False (js '',x'') = [js ''Revenue, Net'', js ''x'']"
proof -
  have a: "34 \<notin> set (js ''Revenue, Net'')" by (simp add: js_def)
  from a tokenizer_quotes [of line "js ''Revenue, Net''" "[]" "[]" "js '',x''"]
  have "splitFields [] [] False (34 # js ''Revenue, Net'' @ 34 # js '',x'')
       = splitFields [] (js ''Revenue, Net'') False (js '',x'')"
    by simp
  moreover have "splitFields [] (js ''Revenue, Net'') False (js '',x'')
       = [js ''Revenue, Net'', js ''x'']"
    by (simp add: js_def)
  ultimately show ?thesis using a by blast
qed

section \<open>Class placeholders\<close>



section \<open>Rows too short to reach the class column\<close>



section \<open>Amounts\<close>

text \<open>
  C8, as the code has it. The amount of a row is \<open>parseFloat\<close> of the amount field with
  its commas removed, so 1,234.50 gives 1234.5. The test that admits a row is
  \<open>!isNaN(amount)\<close>: a row whose amount parses to NaN is skipped, and every amount that
  reaches the aggregation maps is a number other than NaN. It need not be finite.
\<close>

theorem amount_parsing:
  "parseFloat (filter (\<lambda>c. c \<noteq> 44) (js ''1,234.50'')) = Fin (2469 / 2)
   \<and> (normalizeRow newDate di ai ci rawLine = Some (k, amt, cls) \<longrightarrow>
        amt = parseFloat (filter (\<lambda>c. c \<noteq> 44) (parseCSVLine (trim rawLine) ! ai))
        \<and> amt \<noteq> NaN)
   \<and> (parseFloat (filter (\<lambda>c. c \<noteq> 44) (parseCSVLine (trim rawLine) ! ai)) = NaN \<longrightarrow>
        normalizeRow newDate di ai ci rawLine = None)"
proof (intro conjI impI)
  have "toDouble (2469 / 2) = Fin (2469 / 2)"
    using toDouble_exact [of 2469 "- 1"] by simp
  then show "parseFloat (filter (\<lambda>c. c \<noteq> 44) (js ''1,234.50'')) = Fin (2469 / 2)"
    by (simp add: parseFloat_def js_def trimStart_def isWhite_def stripSign_def isDigit_def
        digitsValue_def exponentPart_def Let_def)
next
  assume a: "normalizeRow newDate di ai ci rawLine = Some (k, amt, cls)"
  show "amt = parseFloat (filter (\<lambda>c. c \<noteq> 44) (parseCSVLine (trim rawLine) ! ai))"
    by (rule normalizeRow_SomeD(7) [OF a])
  show "amt \<noteq> NaN" by (rule normalizeRow_SomeD(8) [OF a])
next
  assume "parseFloat (filter (\<lambda>c. c \<noteq> 44) (parseCSVLine (trim rawLine) ! ai)) = NaN"
  then show "normalizeRow newDate di ai ci rawLine = None"
    by (simp add: normalizeRow_def Let_def isNaN_def)
qed

theorem amount_parsing_witness:
  \<open>normalizeRow (\<lambda>_. None) 0 1 None (js ''202309,"1,234.50"'')
     = Some (js ''2023-09'', Fin (2469 / 2), js ''Unclassified'')
   \<and> parseFloat (filter (\<lambda>c. c \<noteq> 44) (parseCSVLine (trim (js ''202309,abc'')) ! 1)) = NaN
   \<and> normalizeRow (\<lambda>_. None) 0 1 None (js ''202309,abc'') = None\<close>
proof -
  have half: "toDouble (2469 / 2) = Fin (2469 / 2)"
    using toDouble_exact [of 2469 "- 1"] by simp
  have a: \<open>normalizeRow (\<lambda>_. None) 0 1 None (js ''202309,"1,234.50"'')
     = Some (js ''2023-09'', Fin (2469 / 2), js ''Unclassified'')\<close>
    by (simp add: eval_defs half)
  have b: "parseFloat (filter (\<lambda>c. c \<noteq> 44) (parseCSVLine (trim (js ''202309,abc'')) ! 1)) = NaN"
    by (simp add: eval_defs)
  from b amount_parsing [of "\<lambda>_. None" 0 1 None "js ''202309,abc''"]
  have c: "normalizeRow (\<lambda>_. None) 0 1 None (js ''202309,abc'') = None"
    by blast
  from a amount_parsing [of "\<lambda>_. None" 0 1 None \<open>js ''202309,"1,234.50"''\<close> "js ''2023-09''"
      "Fin (2469 / 2)" "js ''Unclassified''"]
  have "Fin (2469 / 2) \<noteq> NaN" by blast
  with a b c show ?thesis by blast
qed

text \<open>
  The claim as the specification states it, that every contributing amount is finite,
  fails: the amount field Infinity parses to the number Infinity, which is not NaN, so
  the row is aggregated and the month's total is infinite.
\<close>

theorem amount_parsing_counterexample:
  "normalizeRow (\<lambda>_. None) 0 1 None (js ''202309,Infinity'')
     = Some (js ''2023-09'', PInf, js ''Unclassified'')
   \<and> \<not> isFinite PInf
   \<and> parseCSV (\<lambda>_. None) (js ''billPeriod,amount'' @ [10] @ js ''202309,Infinity'')
     = Inr \<lparr> totalByDate = [\<lparr> date = js ''2023-09'', amount = PInf \<rparr>],
             byClass = [(js ''Unclassified'', [\<lparr> date = js ''2023-09'', amount = PInf \<rparr>])],
             availableClasses = [js ''Unclassified''] \<rparr>"
proof -
  have a: "normalizeRow (\<lambda>_. None) 0 1 None (js ''202309,Infinity'')
     = Some (js ''2023-09'', PInf, js ''Unclassified'')"
    by (simp add: eval_defs)
  have b: "\<not> isFinite PInf" by (simp add: isFinite_def)
  have c: "parseCSV (\<lambda>_. None) (js ''billPeriod,amount'' @ [10] @ js ''202309,Infinity'')
     = Inr \<lparr> totalByDate = [\<lparr> date = js ''2023-09'', amount = PInf \<rparr>],
             byClass = [(js ''Unclassified'', [\<lparr> date = js ''2023-09'', amount = PInf \<rparr>])],
             availableClasses = [js ''Unclassified''] \<rparr>"
    by (simp add: eval_defs)
  from a b c show ?thesis by blast
qed

section \<open>Missing columns\<close>

text \<open>
  C5. When the normalized header row resolves no date column (neither billperiod nor
  monthly) or no amount column, \<open>parseCSV\<close> fails before the row loop: with the
  missing-column error, which quotes the header line, or with one of the two errors
  raised even earlier when the text is blank or has fewer than two lines. A missing
  class column is no error: when the date and amount columns are resolved and some row
  survives, the parse succeeds, and every dataset parsed from such a file has the single
  class Unclassified.
\<close>

theorem header_roles:
  "(dateIndexOf (headersOf (splitLines [] text ! 0)) = None
      \<or> amountIndexOf (headersOf (splitLines [] text ! 0)) = None \<longrightarrow>
      parseCSV newDate text =
        Inl (Error (if trim text = [] then msgEmptyFile
                    else if length (splitLines [] text) < 2 then msgTooFewLines
                    else msgMissingColumns (splitLines [] text ! 0))))
   \<and> (classIndexOf (headersOf (splitLines [] text ! 0)) = None \<longrightarrow>
        (trim text \<noteq> [] \<and> 2 \<le> length (splitLines [] text)
           \<and> dateIndexOf (headersOf (splitLines [] text ! 0)) = Some di
           \<and> amountIndexOf (headersOf (splitLines [] text ! 0)) = Some ai
           \<and> survivingRows newDate di ai None (tl (splitLines [] text)) \<noteq> [] \<longrightarrow>
           (\<exists>ds. parseCSV newDate text = Inr ds))
        \<and> (parseCSV newDate text = Inr ds \<longrightarrow>
             map fst (byClass ds) = [js ''Unclassified'']
             \<and> availableClasses ds = [js ''Unclassified'']))"
proof (intro conjI impI)
  assume "dateIndexOf (headersOf (splitLines [] text ! 0)) = None
      \<or> amountIndexOf (headersOf (splitLines [] text ! 0)) = None"
  then show "parseCSV newDate text =
        Inl (Error (if trim text = [] then msgEmptyFile
                    else if length (splitLines [] text) < 2 then msgTooFewLines
                    else msgMissingColumns (splitLines [] text ! 0)))"
    by (rule parseCSV_missing)
next
  assume none: "classIndexOf (headersOf (splitLines [] text ! 0)) = None"
    and "trim text \<noteq> [] \<and> 2 \<le> length (splitLines [] text)
           \<and> dateIndexOf (headersOf (splitLines [] text ! 0)) = Some di
           \<and> amountIndexOf (headersOf (splitLines [] text ! 0)) = Some ai
           \<and> survivingRows newDate di ai None (tl (splitLines [] text)) \<noteq> []"
  then show "\<exists>ds. parseCSV newDate text = Inr ds"
    using parseCSV_success [of "text" di ai newDate] by simp
next
  assume none: "classIndexOf (headersOf (splitLines [] text ! 0)) = None"
    and ok: "parseCSV newDate text = Inr ds"
  from ok obtain di' ai' st where
    st: "st = foldl aggregate emptyState
            (survivingRows newDate di' ai' (classIndexOf (headersOf (splitLines [] text ! 0)))
               (tl (splitLines [] text)))"
    and cnt: "validRowCount st \<noteq> 0"
    and fill: "fillByClass (classMap st) (foundClasses st) [] = Some (byClass ds)"
    and avail: "availableClasses ds = sort (foundClasses st)"
    by (rule parseCSV_InrD)
  define rows where "rows = survivingRows newDate di' ai' None (tl (splitLines [] text))"
  have st': "st = foldl aggregate emptyState rows" by (simp add: st none rows_def)
  have "rows \<noteq> []" using cnt by (auto simp: st' validRowCount_foldl emptyState_def)
  moreover have "\<forall>r \<in> set rows. snd (snd r) = js ''Unclassified''"
    unfolding rows_def by (rule survivingRows_no_class_column)
  ultimately have found: "foundClasses st = [js ''Unclassified'']"
    using foundClasses_single [of rows "js ''Unclassified''" emptyState]
    by (simp add: st' emptyState_def)
  from fill have "\<exists>m. [(js ''Unclassified'', toSeries m)] = byClass ds"
    unfolding found by (auto split: option.splits)
  then obtain m where "byClass ds = [(js ''Unclassified'', toSeries m)]" by metis
  then show "map fst (byClass ds) = [js ''Unclassified'']" by simp
  show "availableClasses ds = [js ''Unclassified'']"
    using avail found by simp
qed

theorem header_roles_witness:
  "dateIndexOf (headersOf (splitLines [] (js ''name,amount'' @ [10] @ js ''x,1'') ! 0)) = None
   \<and> parseCSV (\<lambda>_. None) (js ''name,amount'' @ [10] @ js ''x,1'')
       = Inl (Error (msgMissingColumns (js ''name,amount'')))
   \<and> classIndexOf (headersOf (splitLines [] (js ''billPeriod,amount'' @ [10] @ js ''202309,5'') ! 0))
       = None
   \<and> (\<exists>ds. parseCSV (\<lambda>_. None) (js ''billPeriod,amount'' @ [10] @ js ''202309,5'') = Inr ds
          \<and> map fst (byClass ds) = [js ''Unclassified'']
          \<and> availableClasses ds = [js ''Unclassified''])"
proof -
  let ?t1 = "js ''name,amount'' @ [10] @ js ''x,1''"
  let ?t2 = "js ''billPeriod,amount'' @ [10] @ js ''202309,5''"
  have l1: "splitLines [] ?t1 = [js ''name,amount'', js ''x,1'']"
    by (simp add: js_def)
  have a: "dateIndexOf (headersOf (splitLines [] ?t1 ! 0)) = None"
    unfolding l1 by (simp add: eval_defs)
  have t1: "trim ?t1 \<noteq> []" by (simp add: eval_defs)
  from a t1 l1 header_roles [of ?t1 "\<lambda>_. None"]
  have b: "parseCSV (\<lambda>_. None) ?t1 = Inl (Error (msgMissingColumns (js ''name,amount'')))"
    by simp
  have l2: "splitLines [] ?t2 = [js ''billPeriod,amount'', js ''202309,5'']"
    by (simp add: js_def)
  have c: "classIndexOf (headersOf (splitLines [] ?t2 ! 0)) = None"
    unfolding l2 by (simp add: eval_defs)
  have d: "dateIndexOf (headersOf (splitLines [] ?t2 ! 0)) = Some 0"
    unfolding l2 by (simp add: eval_defs)
  have e: "amountIndexOf (headersOf (splitLines [] ?t2 ! 0)) = Some 1"
    unfolding l2 by (simp add: eval_defs)
  have f: "survivingRows (\<lambda>_. None) 0 1 None (tl (splitLines [] ?t2)) \<noteq> []"
    unfolding l2 by (simp add: survivingRows_def eval_defs)
  have g: "trim ?t2 \<noteq> []" by (simp add: eval_defs)
  have h: "2 \<le> length (splitLines [] ?t2)" unfolding l2 by simp
  from c d e f g h header_roles [of ?t2 "\<lambda>_. None" 0 1]
  obtain ds where ds: "parseCSV (\<lambda>_. None) ?t2 = Inr ds" by blast
  from c ds header_roles [of ?t2 "\<lambda>_. None" 0 1 ds]
  have "map fst (byClass ds) = [js ''Unclassified'']
          \<and> availableClasses ds = [js ''Unclassified'']"
    by blast
  with ds have "\<exists>ds. parseCSV (\<lambda>_. None) ?t2 = Inr ds
          \<and> map fst (byClass ds) = [js ''Unclassified'']
          \<and> availableClasses ds = [js ''Unclassified'']"
    by (intro exI [of _ ds]) simp
  with a b c show ?thesis by (intro conjI)
qed

section \<open>Files without a processable row\<close>

text \<open>
  C4, as the code has it. When no row of the file survives normalization the parse fails
  and returns no dataset. The error is the no-processable-data error, whose message
  names the expected format (YYYYMM), when the text is not blank, has at least two
  lines and its header resolves the date and the amount column; a blank text, a text of
  fewer than two lines and a header without these columns are each rejected earlier,
  with their own error.
\<close>

theorem no_rows_fails:
  assumes "fileRows newDate text = []"
  shows "parseCSV newDate text =
           Inl (Error (if trim text = [] then msgEmptyFile
                       else if length (splitLines [] text) < 2 then msgTooFewLines
                       else if dateIndexOf (headersOf (splitLines [] text ! 0)) = None
                               \<or> amountIndexOf (headersOf (splitLines [] text ! 0)) = None
                            then msgMissingColumns (splitLines [] text ! 0)
                       else msgNoData))
         \<and> (\<exists>pre post. msgNoData = pre @ js ''(YYYYMM)'' @ post)"
proof
  show "parseCSV newDate text =
           Inl (Error (if trim text = [] then msgEmptyFile
                       else if length (splitLines [] text) < 2 then msgTooFewLines
                       else if dateIndexOf (headersOf (splitLines [] text ! 0)) = None
                               \<or> amountIndexOf (headersOf (splitLines [] text ! 0)) = None
                            then msgMissingColumns (splitLines [] text ! 0)
                       else msgNoData))"
  proof (cases "dateIndexOf (headersOf (splitLines [] text ! 0)) = None
                  \<or> amountIndexOf (headersOf (splitLines [] text ! 0)) = None")
    case True
    from parseCSV_missing [OF True] True show ?thesis by simp
  next
    case False
    then obtain di ai where di: "dateIndexOf (headersOf (splitLines [] text ! 0)) = Some di"
      and ai: "amountIndexOf (headersOf (splitLines [] text ! 0)) = Some ai" by auto
    with assms have "survivingRows newDate di ai (classIndexOf (headersOf (splitLines [] text ! 0)))
           (tl (splitLines [] text)) = []"
      by (simp add: fileRows_def Let_def)
    from parseCSV_no_rows [OF di ai this] di ai show ?thesis by simp
  qed
  have "msgNoData = (take 62 msgNoData) @ js ''(YYYYMM)'' @ (drop 70 msgNoData)"
    by (simp add: msgNoData_def js_def)
  then show "\<exists>pre post. msgNoData = pre @ js ''(YYYYMM)'' @ post" by blast
qed

theorem no_rows_fails_witness:
  "fileRows (\<lambda>_. None) (js ''billPeriod,amount'' @ [10] @ js ''abc,5'') = []
   \<and> parseCSV (\<lambda>_. None) (js ''billPeriod,amount'' @ [10] @ js ''abc,5'') = Inl (Error msgNoData)
   \<and> fileRows (\<lambda>_. None) (js ''billPeriod,amount'' @ [10]) = []
   \<and> parseCSV (\<lambda>_. None) (js ''billPeriod,amount'' @ [10]) = Inl (Error msgNoData)"
proof -
  let ?t1 = "js ''billPeriod,amount'' @ [10] @ js ''abc,5''"
  let ?t2 = "js ''billPeriod,amount'' @ [10]"
  have l1: "splitLines [] ?t1 = [js ''billPeriod,amount'', js ''abc,5'']"
    by (simp add: js_def)
  have l2: "splitLines [] ?t2 = [js ''billPeriod,amount'', []]"
    by (simp add: js_def)
  have h: "dateIndexOf (headersOf (js ''billPeriod,amount'')) = Some 0"
    "amountIndexOf (headersOf (js ''billPeriod,amount'')) = Some 1"
    "classIndexOf (headersOf (js ''billPeriod,amount'')) = None"
    by (simp_all add: eval_defs)
  have a: "fileRows (\<lambda>_. None) ?t1 = []"
    unfolding fileRows_def l1 by (simp add: h survivingRows_def) (simp add: eval_defs)
  have b: "fileRows (\<lambda>_. None) ?t2 = []"
    unfolding fileRows_def l2 by (simp add: h survivingRows_def) (simp add: eval_defs)
  have t: "trim ?t1 \<noteq> []" "trim ?t2 \<noteq> []" by (simp_all add: eval_defs)
  from no_rows_fails [OF a] t(1)
  have c: "parseCSV (\<lambda>_. None) ?t1 = Inl (Error msgNoData)"
    unfolding l1 by (simp add: h)
  from no_rows_fails [OF b] t(2)
  have d: "parseCSV (\<lambda>_. None) ?t2 = Inl (Error msgNoData)"
    unfolding l2 by (simp add: h)
  from a b c d show ?thesis by blast
qed

text \<open>
  The claim as the specification states it fails on a file that consists of a header
  row only, with no line break after it: no row survives, and the error is the one for
  a file of fewer than two lines, not the no-processable-data error.
\<close>

theorem no_rows_fails_counterexample:
  "fileRows (\<lambda>_. None) (js ''billPeriod,amount'') = []
   \<and> parseCSV (\<lambda>_. None) (js ''billPeriod,amount'') = Inl (Error msgTooFewLines)
   \<and> parseCSV (\<lambda>_. None) (js ''billPeriod,amount'') \<noteq> Inl (Error msgNoData)"
proof -
  have l: "splitLines [] (js ''billPeriod,amount'') = [js ''billPeriod,amount'']"
    by (simp add: js_def)
  have a: "fileRows (\<lambda>_. None) (js ''billPeriod,amount'') = []"
    unfolding fileRows_def l by (simp add: survivingRows_def Let_def split: option.splits)
  have t: "trim (js ''billPeriod,amount'') \<noteq> []" by (simp add: eval_defs)
  have b: "parseCSV (\<lambda>_. None) (js ''billPeriod,amount'') = Inl (Error msgTooFewLines)"
    unfolding parseCSV_unfold l using t by simp
  have "msgTooFewLines \<noteq> msgNoData"
    by (simp add: msgTooFewLines_def msgNoData_def)
  with a b show ?thesis by simp
qed

section \<open>Order of the series\<close>



section \<open>Aggregation consistency\<close>




end
